theory Spec2Isabelle
  imports Main "HOL-Library.AList"
begin

section \<open>Python text, bytes and exceptions\<close>

text \<open>
  A Python \<open>str\<close> is a sequence of Unicode code points and a \<open>bytes\<close> value a sequence of
  octets; both are modelled as lists of naturals. String literals of the source are written
  as HOL string literals and turned into code points by \<open>lit\<close>. An exception is a value of
  \<open>pyexn\<close> on the left of a sum.
\<close>

type_synonym pystr = "nat list"
type_synonym pybytes = "nat list"

datatype pyexn =
    ValueError
  | BinasciiError
  | UnicodeDecodeError
  | UnicodeEncodeError
  | IndexError
  | AttributeError
  | BackendFailure pystr
  | NotFound pystr
  | NotFoundChecked pystr "pystr list" "(pystr \<times> pystr) list"

definition lit :: "string \<Rightarrow> pystr" where
  "lit s = map of_char s"

definition startswith :: "pystr \<Rightarrow> pystr \<Rightarrow> bool" where
  "startswith s p = (take (length p) s = p)"

definition emit :: "'a \<Rightarrow> pyexn + 'a list \<Rightarrow> pyexn + 'a list" where
  "emit x r = (case r of Inl e \<Rightarrow> Inl e | Inr xs \<Rightarrow> Inr (x # xs))"

definition emits :: "'a list \<Rightarrow> pyexn + 'a list \<Rightarrow> pyexn + 'a list" where
  "emits ys r = (case r of Inl e \<Rightarrow> Inl e | Inr xs \<Rightarrow> Inr (ys @ xs))"

subsection \<open>UTF-8, as \<open>str.encode()\<close> and \<open>bytes.decode()\<close> implement it\<close>

fun str_encode :: "pystr \<Rightarrow> pyexn + pybytes" where
  "str_encode [] = Inr []"
| "str_encode (c # cs) =
     (if c < 128 then emits [c] (str_encode cs)
      else if c < 2048 then emits [192 + c div 64, 128 + c mod 64] (str_encode cs)
      else if c < 65536 then
        (if 55296 \<le> c \<and> c \<le> 57343 then Inl UnicodeEncodeError
         else emits [224 + c div 4096, 128 + (c div 64) mod 64, 128 + c mod 64] (str_encode cs))
      else if c < 1114112 then
        emits [240 + c div 262144, 128 + (c div 4096) mod 64, 128 + (c div 64) mod 64,
               128 + c mod 64] (str_encode cs)
      else Inl UnicodeEncodeError)"

definition cont :: "nat \<Rightarrow> bool" where
  "cont b = (128 \<le> b \<and> b \<le> 191)"

definition second_ok3 :: "nat \<Rightarrow> nat \<Rightarrow> bool" where
  "second_ok3 b0 b1 =
     (if b0 = 224 then 160 \<le> b1 \<and> b1 \<le> 191
      else if b0 = 237 then 128 \<le> b1 \<and> b1 \<le> 159
      else cont b1)"

definition second_ok4 :: "nat \<Rightarrow> nat \<Rightarrow> bool" where
  "second_ok4 b0 b1 =
     (if b0 = 240 then 144 \<le> b1 \<and> b1 \<le> 191
      else if b0 = 244 then 128 \<le> b1 \<and> b1 \<le> 143
      else cont b1)"

fun bytes_decode :: "pybytes \<Rightarrow> pyexn + pystr" where
  "bytes_decode [] = Inr []"
| "bytes_decode (b0 # bs) =
     (if b0 < 128 then emit b0 (bytes_decode bs)
      else if 194 \<le> b0 \<and> b0 \<le> 223 then
        (case bs of
           b1 # r \<Rightarrow>
             if cont b1 then emit ((b0 - 192) * 64 + (b1 - 128)) (bytes_decode r)
             else Inl UnicodeDecodeError
         | _ \<Rightarrow> Inl UnicodeDecodeError)
      else if 224 \<le> b0 \<and> b0 \<le> 239 then
        (case bs of
           b1 # b2 # r \<Rightarrow>
             if second_ok3 b0 b1 \<and> cont b2
             then emit ((b0 - 224) * 4096 + (b1 - 128) * 64 + (b2 - 128)) (bytes_decode r)
             else Inl UnicodeDecodeError
         | _ \<Rightarrow> Inl UnicodeDecodeError)
      else if 240 \<le> b0 \<and> b0 \<le> 244 then
        (case bs of
           b1 # b2 # b3 # r \<Rightarrow>
             if second_ok4 b0 b1 \<and> cont b2 \<and> cont b3
             then emit ((b0 - 240) * 262144 + (b1 - 128) * 4096 + (b2 - 128) * 64 + (b3 - 128))
                    (bytes_decode r)
             else Inl UnicodeDecodeError
         | _ \<Rightarrow> Inl UnicodeDecodeError)
      else Inl UnicodeDecodeError)"

subsection \<open>Base64, as the \<open>base64\<close> and \<open>binascii\<close> modules implement it\<close>

text \<open>
  \<open>table_b2a_base64\<close> is the standard alphabet; \<open>urlsafe_b64encode\<close> then replaces \<open>+\<close> by
  \<open>-\<close> and \<open>/\<close> by \<open>_\<close>. The encoder writes four characters for every three octets and pads
  the last group with \<open>=\<close> (code point 61).
\<close>

definition table_b2a_base64 :: "nat \<Rightarrow> nat" where
  "table_b2a_base64 v =
     (if v < 26 then 65 + v
      else if v < 52 then 97 + (v - 26)
      else if v < 62 then 48 + (v - 52)
      else if v = 62 then 43
      else 47)"

fun b2a_base64 :: "pybytes \<Rightarrow> pybytes" where
  "b2a_base64 [] = []"
| "b2a_base64 [a] =
     [table_b2a_base64 (a div 4), table_b2a_base64 ((a mod 4) * 16), 61, 61]"
| "b2a_base64 [a, b] =
     [table_b2a_base64 (a div 4), table_b2a_base64 ((a mod 4) * 16 + b div 16),
      table_b2a_base64 ((b mod 16) * 4), 61]"
| "b2a_base64 (a # b # c # rest) =
     [table_b2a_base64 (a div 4), table_b2a_base64 ((a mod 4) * 16 + b div 16),
      table_b2a_base64 ((b mod 16) * 4 + c div 64), table_b2a_base64 (c mod 64)]
     @ b2a_base64 rest"

definition urlsafe_encode_translation :: "nat \<Rightarrow> nat" where
  "urlsafe_encode_translation c = (if c = 43 then 45 else if c = 47 then 95 else c)"

definition urlsafe_b64encode :: "pybytes \<Rightarrow> pybytes" where
  "urlsafe_b64encode s = map urlsafe_encode_translation (b2a_base64 s)"

text \<open>
  Decoding a \<open>str\<close> first encodes it as ASCII (\<open>ValueError\<close> on any other code point),
  maps \<open>-\<close> and \<open>_\<close> back to \<open>+\<close> and \<open>/\<close>, and runs \<open>binascii.a2b_base64\<close> in its
  non-strict mode: characters outside the alphabet are skipped, a pad is honoured only once
  the current quad holds two characters, and the input must not end inside a quad.
\<close>

definition bytes_from_decode_data :: "pystr \<Rightarrow> pyexn + pybytes" where
  "bytes_from_decode_data s = (if list_all (\<lambda>c. c < 128) s then Inr s else Inl ValueError)"

definition urlsafe_decode_translation :: "nat \<Rightarrow> nat" where
  "urlsafe_decode_translation c = (if c = 45 then 43 else if c = 95 then 47 else c)"

definition table_a2b_base64 :: "nat \<Rightarrow> nat option" where
  "table_a2b_base64 c =
     (if 65 \<le> c \<and> c \<le> 90 then Some (c - 65)
      else if 97 \<le> c \<and> c \<le> 122 then Some (c - 71)
      else if 48 \<le> c \<and> c \<le> 57 then Some (c + 4)
      else if c = 43 then Some 62
      else if c = 47 then Some 63
      else None)"

fun a2b_loop :: "nat \<Rightarrow> nat \<Rightarrow> nat \<Rightarrow> pybytes \<Rightarrow> pyexn + pybytes" where
  "a2b_loop quad_pos leftchar pads [] =
     (if quad_pos \<noteq> 0 then Inl BinasciiError else Inr [])"
| "a2b_loop quad_pos leftchar pads (this_ch # rest) =
     (if this_ch = 61 then
        (if quad_pos \<ge> 2 then
           (if quad_pos + (pads + 1) \<ge> 4 then Inr []
            else a2b_loop quad_pos leftchar (pads + 1) rest)
         else a2b_loop quad_pos leftchar pads rest)
      else
        (case table_a2b_base64 this_ch of
           None \<Rightarrow> a2b_loop quad_pos leftchar pads rest
         | Some v \<Rightarrow>
             (if quad_pos = 0 then a2b_loop 1 v 0 rest
              else if quad_pos = 1 then
                emit (leftchar * 4 + v div 16) (a2b_loop 2 (v mod 16) 0 rest)
              else if quad_pos = 2 then
                emit (leftchar * 16 + v div 4) (a2b_loop 3 (v mod 4) 0 rest)
              else emit (leftchar * 64 + v) (a2b_loop 0 0 0 rest))))"

definition a2b_base64 :: "pybytes \<Rightarrow> pyexn + pybytes" where
  "a2b_base64 s = a2b_loop 0 0 0 s"

definition urlsafe_b64decode :: "pystr \<Rightarrow> pyexn + pybytes" where
  "urlsafe_b64decode s =
     (case bytes_from_decode_data s of
        Inl e \<Rightarrow> Inl e
      | Inr bs \<Rightarrow> a2b_base64 (map urlsafe_decode_translation bs))"

definition rstrip_eq :: "pystr \<Rightarrow> pystr" where
  "rstrip_eq s = rev (dropWhile (\<lambda>c. c = 61) (rev s))"

section \<open>The identifier codec of \<open>_PROXY_LiteLLMManagedFiles\<close>\<close>

text \<open>
  \<open>SpecialEnums.LITELM_MANAGED_FILE_ID_PREFIX\<close> is declared outside the hook's module; every
  function that consults it takes the sentinel as its first argument \<open>pfx\<close>.
  The result \<open>Union[str, Literal[False]]\<close> is an option, \<open>None\<close> standing for \<open>False\<close>.
\<close>

definition try_decode :: "pystr \<Rightarrow> pyexn + pystr" where
  "try_decode padded =
     (case urlsafe_b64decode padded of
        Inl e \<Rightarrow> Inl e
      | Inr bs \<Rightarrow> bytes_decode bs)"

definition repad :: "pystr \<Rightarrow> pystr" where
  "repad b64_uid = b64_uid @ replicate (nat ((- int (length b64_uid)) mod 4)) 61"

definition is_base64_encoded_unified_file_id :: "pystr \<Rightarrow> pystr \<Rightarrow> pystr option" where
  "is_base64_encoded_unified_file_id pfx b64_uid =
     (let padded = repad b64_uid
      in case try_decode padded of
           Inr decoded \<Rightarrow> if startswith decoded pfx then Some decoded else None
         | Inl e \<Rightarrow> None)"

text \<open>
  Both converters test the decoder's result for truth: a decoded string counts only when it
  is not empty.
\<close>

definition static_convert_b64_uid_to_unified_uid :: "pystr \<Rightarrow> pystr \<Rightarrow> pystr" where
  "static_convert_b64_uid_to_unified_uid pfx b64_uid =
     (case is_base64_encoded_unified_file_id pfx b64_uid of
        Some is_base64_unified_file_id \<Rightarrow>
          if is_base64_unified_file_id \<noteq> [] then is_base64_unified_file_id else b64_uid
      | None \<Rightarrow> b64_uid)"

definition convert_b64_uid_to_unified_uid :: "pystr \<Rightarrow> pystr \<Rightarrow> pystr" where
  "convert_b64_uid_to_unified_uid pfx b64_uid =
     (case is_base64_encoded_unified_file_id pfx b64_uid of
        Some is_base64_unified_file_id \<Rightarrow>
          if is_base64_unified_file_id \<noteq> [] then is_base64_unified_file_id else b64_uid
      | None \<Rightarrow> b64_uid)"

text \<open>
  Modelled from the spec: \<open>SpecialEnums.LITELLM_MANAGED_FILE_COMPLETE_STR\<close>, the format that
  \<open>return_unified_file_id\<close> fills with the content type and the UUID, is declared outside
  the hook's module. The spec renders the token as \<open><prefix>,<content_type>,<uuid>\<close>
  (code point 44 is the comma).
\<close>

definition LITELLM_MANAGED_FILE_COMPLETE_STR :: "pystr \<Rightarrow> pystr \<Rightarrow> pystr \<Rightarrow> pystr" where
  "LITELLM_MANAGED_FILE_COMPLETE_STR pfx file_type uuid4 = pfx @ [44] @ file_type @ [44] @ uuid4"

text \<open>
  The two locals of \<open>return_unified_file_id\<close> that make up the encoder; \<open>uuid4\<close> is the
  string of the fresh UUID, an input of the model.
\<close>

definition unified_file_id :: "pystr \<Rightarrow> pystr \<Rightarrow> pystr \<Rightarrow> pystr" where
  "unified_file_id pfx file_type uuid4 = LITELLM_MANAGED_FILE_COMPLETE_STR pfx file_type uuid4"

definition base64_unified_file_id :: "pystr \<Rightarrow> pyexn + pystr" where
  "base64_unified_file_id token =
     (case str_encode token of
        Inl e \<Rightarrow> Inl e
      | Inr raw \<Rightarrow>
          (case bytes_decode (urlsafe_b64encode raw) of
             Inl e \<Rightarrow> Inl e
           | Inr text \<Rightarrow> Inr (rstrip_eq text)))"

section \<open>Cached values, the cache and the dispatcher\<close>

record OpenAIFileObject =
  obj_id :: pystr
  obj_bytes :: int
  obj_created_at :: int
  obj_filename :: pystr
  obj_object :: pystr
  obj_purpose :: pystr
  obj_status :: pystr
  hidden_model_id :: "pystr option"

datatype cache_value =
    FileObject OpenAIFileObject
  | BackendMapping "(pystr \<times> pystr) list"

text \<open>
  A cached value counts as true when it is a file object or a non-empty dictionary;
  \<open>None\<close> and the empty dictionary count as false.
\<close>

fun cache_truthy :: "cache_value option \<Rightarrow> bool" where
  "cache_truthy None = False"
| "cache_truthy (Some (FileObject obj)) = True"
| "cache_truthy (Some (BackendMapping m)) = (m \<noteq> [])"

datatype event =
    CacheGet pystr
  | CacheSet pystr "cache_value option"
  | RouterFileDelete pystr pystr
  | RouterFileContent pystr pystr

fun is_router_call :: "event \<Rightarrow> bool" where
  "is_router_call (RouterFileDelete model_id file_id) = True"
| "is_router_call (RouterFileContent model_id file_id) = True"
| "is_router_call e = False"

record world =
  cache :: "pystr \<Rightarrow> cache_value option"
  trace :: "event list"

definition router_calls :: "world \<Rightarrow> event list" where
  "router_calls w = filter is_router_call (trace w)"

text \<open>
  Modelled from the spec: the cache collaborator \<open>internal_usage_cache\<close> is declared outside
  the hook's module. The spec gives it as a key-value cache with
  \<open>async_get_cache(key) -> value|empty\<close> and \<open>async_set_cache(key, value) -> void\<close>; setting
  \<open>None\<close> leaves the key empty. Every call is recorded in the trace.
\<close>

definition async_get_cache :: "world \<Rightarrow> pystr \<Rightarrow> cache_value option \<times> world" where
  "async_get_cache w key = (cache w key, w\<lparr>trace := trace w @ [CacheGet key]\<rparr>)"

definition async_set_cache :: "world \<Rightarrow> pystr \<Rightarrow> cache_value option \<Rightarrow> world" where
  "async_set_cache w key v =
     w\<lparr>cache := (cache w)(key := v), trace := trace w @ [CacheSet key v]\<rparr>"

text \<open>
  Modelled from the spec: the multi-backend dispatcher \<open>llm_router\<close> is declared outside the
  hook's module. The spec gives it as \<open>delete(backend_id, backend_file_id)\<close> and
  \<open>fetch_content(backend_id, backend_file_id) -> content\<close>, each of which may fail. A failing
  delete is \<open>Some\<close> of the exception's message, a failing fetch is \<open>Inl\<close> of it.
\<close>

record router =
  router_afile_delete :: "pystr \<Rightarrow> pystr \<Rightarrow> pystr option"
  router_afile_content :: "pystr \<Rightarrow> pystr \<Rightarrow> pystr + pystr"

section \<open>The store of unified file objects\<close>

definition store_unified_file_id :: "world \<Rightarrow> pystr \<Rightarrow> OpenAIFileObject \<Rightarrow> world" where
  "store_unified_file_id w file_id file_object =
     (let key = lit ''litellm_proxy/'' @ file_id
      in async_set_cache w key (Some (FileObject file_object)))"

definition get_unified_file_id :: "world \<Rightarrow> pystr \<Rightarrow> cache_value option \<times> world" where
  "get_unified_file_id w file_id =
     (let key = lit ''litellm_proxy/'' @ file_id
      in async_get_cache w key)"

definition delete_unified_file_id :: "world \<Rightarrow> pystr \<Rightarrow> (pyexn + OpenAIFileObject) \<times> world" where
  "delete_unified_file_id w file_id =
     (let key = lit ''litellm_proxy/'' @ file_id;
          (old_value, w1) = async_get_cache w key
      in case old_value of
           Some (FileObject obj) \<Rightarrow> (Inr obj, async_set_cache w1 key None)
         | _ \<Rightarrow> (Inl (NotFound file_id), w1))"

section \<open>The request rewriter\<close>

datatype call_type =
    Completion
  | TextCompletion
  | Embeddings
  | ImageGeneration
  | Moderation
  | AudioTranscription
  | PassThroughEndpoint
  | Rerank

record file_field =
  file_id :: "pystr option"
  file_data :: "pystr option"

datatype other_type = Text | ImageUrl | InputAudio | Document | VideoUrl

datatype content_part =
    FilePart file_field
  | OtherPart other_type pystr

datatype message_content =
    ContentNone
  | ContentStr pystr
  | ContentList "content_part list"





fun litellm_managed_file_ids :: "pystr \<Rightarrow> pystr list \<Rightarrow> pystr list" where
  "litellm_managed_file_ids pfx [] = []"
| "litellm_managed_file_ids pfx (fid # rest) =
     (case is_base64_encoded_unified_file_id pfx fid of
        Some is_base64_unified_file_id \<Rightarrow>
          if is_base64_unified_file_id \<noteq> []
          then is_base64_unified_file_id # litellm_managed_file_ids pfx rest
          else if startswith fid pfx then fid # litellm_managed_file_ids pfx rest
          else litellm_managed_file_ids pfx rest
      | None \<Rightarrow>
          if startswith fid pfx then fid # litellm_managed_file_ids pfx rest
          else litellm_managed_file_ids pfx rest)"

fun resolve_ids ::
  "world \<Rightarrow> pystr list \<Rightarrow> (pystr \<times> cache_value) list \<Rightarrow> (pystr \<times> cache_value) list \<times> world"
  where
  "resolve_ids w [] file_id_mapping = (file_id_mapping, w)"
| "resolve_ids w (fid # rest) file_id_mapping =
     (let (cached_values, w1) = async_get_cache w fid
      in case cached_values of
           Some v \<Rightarrow>
             if cache_truthy cached_values
             then resolve_ids w1 rest (AList.update fid v file_id_mapping)
             else resolve_ids w1 rest file_id_mapping
         | None \<Rightarrow> resolve_ids w1 rest file_id_mapping)"

definition get_model_file_id_mapping ::
  "pystr \<Rightarrow> world \<Rightarrow> pystr list \<Rightarrow> (pystr \<times> cache_value) list \<times> world" where
  "get_model_file_id_mapping pfx w file_ids =
     resolve_ids w (litellm_managed_file_ids pfx file_ids) []"


section \<open>Creating a unified file\<close>

datatype llm_response = FileResponse OpenAIFileObject | OtherResponse

text \<open>
  \<open>async_post_call_success_hook\<close> schedules \<open>store_unified_file_id\<close> and returns at once; the
  function below is the state once that task has run.
\<close>

definition async_post_call_success_hook :: "world \<Rightarrow> llm_response \<Rightarrow> world" where
  "async_post_call_success_hook w response =
     (case response of
        FileResponse obj \<Rightarrow> store_unified_file_id w (obj_id obj) obj
      | OtherResponse \<Rightarrow> w)"

fun stored_values :: "OpenAIFileObject list \<Rightarrow> (pystr \<times> pystr) list \<Rightarrow> (pystr \<times> pystr) list"
  where
  "stored_values [] acc = acc"
| "stored_values (file_object # rest) acc =
     (case hidden_model_id file_object of
        None \<Rightarrow> stored_values rest acc
      | Some model_id \<Rightarrow> stored_values rest (AList.update model_id (obj_id file_object) acc))"

definition return_unified_file_id ::
  "pystr \<Rightarrow> world \<Rightarrow> OpenAIFileObject list \<Rightarrow> pystr \<Rightarrow> pystr \<Rightarrow> pystr
     \<Rightarrow> (pyexn + OpenAIFileObject) \<times> world" where
  "return_unified_file_id pfx w file_objects file_type uuid4 purpose =
     (let token = unified_file_id pfx file_type uuid4
      in case base64_unified_file_id token of
           Inl e \<Rightarrow> (Inl e, w)
         | Inr b64 \<Rightarrow>
             (case file_objects of
                [] \<Rightarrow> (Inl IndexError, w)
              | first # others \<Rightarrow>
                  (let response =
                         \<lparr>obj_id = b64, obj_bytes = obj_bytes first,
                          obj_created_at = obj_created_at first,
                          obj_filename = obj_filename first, obj_object = lit ''file'',
                          obj_purpose = purpose, obj_status = lit ''uploaded'',
                          hidden_model_id = None\<rparr>;
                       w1 = async_set_cache w token
                              (Some (BackendMapping (stored_values file_objects [])))
                   in (Inr response, w1))))"

section \<open>The file operations\<close>

definition afile_retrieve :: "world \<Rightarrow> pystr \<Rightarrow> (pyexn + cache_value) \<times> world" where
  "afile_retrieve w fid =
     (let (stored_file_object, w1) = get_unified_file_id w fid
      in case stored_file_object of
           Some v \<Rightarrow>
             if cache_truthy stored_file_object then (Inr v, w1) else (Inl (NotFound fid), w1)
         | None \<Rightarrow> (Inl (NotFound fid), w1))"

text \<open>
  The loop of \<open>afile_delete\<close> binds the name \<open>file_id\<close> anew at every entry, so the function
  carries the variable's current value; the call that raises ends the loop with the
  exception.
\<close>

fun delete_fan_out ::
  "router \<Rightarrow> world \<Rightarrow> (pystr \<times> pystr) list \<Rightarrow> pystr \<Rightarrow> (pyexn + pystr) \<times> world" where
  "delete_fan_out rt w [] fid = (Inr fid, w)"
| "delete_fan_out rt w ((model_id, backend_file_id) # rest) fid =
     (let w1 = w\<lparr>trace := trace w @ [RouterFileDelete model_id backend_file_id]\<rparr>
      in case router_afile_delete rt model_id backend_file_id of
           Some msg \<Rightarrow> (Inl (BackendFailure msg), w1)
         | None \<Rightarrow> delete_fan_out rt w1 rest backend_file_id)"

definition afile_delete ::
  "pystr \<Rightarrow> router \<Rightarrow> world \<Rightarrow> pystr \<Rightarrow> (pyexn + OpenAIFileObject) \<times> world" where
  "afile_delete pfx rt w fid0 =
     (let fid = convert_b64_uid_to_unified_uid pfx fid0;
          (mapping, w1) = get_model_file_id_mapping pfx w [fid];
          specific_model_file_id_mapping = map_of mapping fid;
          (looped, w2) =
            (if cache_truthy specific_model_file_id_mapping then
               (case specific_model_file_id_mapping of
                  Some (BackendMapping items) \<Rightarrow> delete_fan_out rt w1 items fid
                | _ \<Rightarrow> (Inl AttributeError, w1))
             else (Inr fid, w1))
      in case looped of
           Inl e \<Rightarrow> (Inl e, w2)
         | Inr fid' \<Rightarrow> delete_unified_file_id w2 fid')"



section \<open>Notions used in the statements\<close>

definition sextet_char :: "nat \<Rightarrow> nat" where
  "sextet_char v = urlsafe_encode_translation (table_b2a_base64 v)"

definition scalar_value :: "nat \<Rightarrow> bool" where
  "scalar_value c = (c < 55296 \<or> (57344 \<le> c \<and> c < 1114112))"

definition lead_byte :: "nat \<Rightarrow> bool" where
  "lead_byte b = (b < 128 \<or> (194 \<le> b \<and> b \<le> 244))"

text \<open>
  A sentinel is reserved when its first two characters are base64 characters whose first
  decoded octet cannot begin a UTF-8 sequence: then no string that starts with the sentinel
  decodes as a token.
\<close>

definition reserved_prefix :: "pystr \<Rightarrow> bool" where
  "reserved_prefix pfx =
     (case pfx of
        c0 # c1 # rest \<Rightarrow>
          (case table_a2b_base64 (urlsafe_decode_translation c0) of
             Some v0 \<Rightarrow>
               (case table_a2b_base64 (urlsafe_decode_translation c1) of
                  Some v1 \<Rightarrow> \<not> lead_byte (v0 * 4 + v1 div 16)
                | None \<Rightarrow> False)
           | None \<Rightarrow> False)
      | _ \<Rightarrow> False)"

section \<open>Events of the dispatcher and the scenarios of the statements\<close>

definition content_call :: "pystr \<times> pystr \<Rightarrow> event" where
  "content_call p = RouterFileContent (fst p) (snd p)"

definition delete_call :: "pystr \<times> pystr \<Rightarrow> event" where
  "delete_call p = RouterFileDelete (fst p) (snd p)"

definition example_prefix :: pystr where
  "example_prefix = lit ''litellm_proxy''"

definition example_token :: pystr where
  "example_token = lit ''litellm_proxy,a,b''"

definition example_b64 :: pystr where
  "example_b64 = lit ''bGl0ZWxsbV9wcm94eSxhLGI''"

definition example_object :: OpenAIFileObject where
  "example_object =
     \<lparr>obj_id = example_b64, obj_bytes = 3, obj_created_at = 1700000000,
      obj_filename = lit ''x.pdf'', obj_object = lit ''file'', obj_purpose = lit ''user_data'',
      obj_status = lit ''uploaded'', hidden_model_id = None\<rparr>"

definition empty_world :: world where
  "empty_world = \<lparr>cache = (\<lambda>k. None), trace = []\<rparr>"

definition two_backends :: "(pystr \<times> pystr) list" where
  "two_backends = [(lit ''a'', lit ''file-a''), (lit ''b'', lit ''file-b'')]"

definition two_backend_world :: world where
  "two_backend_world =
     \<lparr>cache = (\<lambda>k. if k = example_token then Some (BackendMapping two_backends) else None),
      trace = []\<rparr>"

definition first_fails :: router where
  "first_fails =
     \<lparr>router_afile_delete = (\<lambda>model_id fid. if model_id = lit ''a'' then Some (lit ''down'') else None),
      router_afile_content =
        (\<lambda>model_id fid. if model_id = lit ''a'' then Inl (lit ''down'') else Inr (lit ''data''))\<rparr>"


definition all_succeed :: router where
  "all_succeed =
     \<lparr>router_afile_delete = (\<lambda>model_id fid. None),
      router_afile_content = (\<lambda>model_id fid. Inr (lit ''data''))\<rparr>"

definition provider_object :: OpenAIFileObject where
  "provider_object =
     \<lparr>obj_id = lit ''prov-123'', obj_bytes = 3, obj_created_at = 1700000000,
      obj_filename = lit ''x.pdf'', obj_object = lit ''file'', obj_purpose = lit ''user_data'',
      obj_status = lit ''processed'', hidden_model_id = Some (lit ''gpt-a'')\<rparr>"

definition created :: "(pyexn + OpenAIFileObject) \<times> world" where
  "created =
     return_unified_file_id example_prefix empty_world [provider_object] (lit ''a'') (lit ''b'')
       (lit ''user_data'')"

definition created_world :: world where
  "created_world = async_post_call_success_hook (snd created) (FileResponse example_object)"




section \<open>The rewriting of a request in the spec's words\<close>





section \<open>Base64 and UTF-8 round trips\<close>

lemma emit_Inr [simp]: "emit x (Inr xs) = Inr (x # xs)" by (simp add: emit_def)
lemma emit_Inl [simp]: "emit x (Inl e) = Inl e" by (simp add: emit_def)
lemma emits_Inr [simp]: "emits ys (Inr xs) = Inr (ys @ xs)" by (simp add: emits_def)
lemma emits_Inl [simp]: "emits ys (Inl e) = Inl e" by (simp add: emits_def)

lemma sextet_char_decode:
  "v < 64 \<Longrightarrow> table_a2b_base64 (urlsafe_decode_translation (sextet_char v)) = Some v"
  unfolding sextet_char_def table_a2b_base64_def urlsafe_decode_translation_def
    urlsafe_encode_translation_def table_b2a_base64_def
  by (simp; arith)

lemma sextet_char_not_pad:
  "v < 64 \<Longrightarrow> urlsafe_decode_translation (sextet_char v) \<noteq> 61"
  unfolding sextet_char_def urlsafe_decode_translation_def
    urlsafe_encode_translation_def table_b2a_base64_def
  by (simp; arith)

lemma pad_translation [simp]: "urlsafe_decode_translation 61 = 61"
  "urlsafe_encode_translation 61 = 61"
  by (simp_all add: urlsafe_decode_translation_def urlsafe_encode_translation_def)

lemma a2b_step:
  "v < 64 \<Longrightarrow>
   a2b_loop q l p (urlsafe_decode_translation (sextet_char v) # rest) =
     (if q = 0 then a2b_loop 1 v 0 rest
      else if q = 1 then emit (l * 4 + v div 16) (a2b_loop 2 (v mod 16) 0 rest)
      else if q = 2 then emit (l * 16 + v div 4) (a2b_loop 3 (v mod 4) 0 rest)
      else emit (l * 64 + v) (a2b_loop 0 0 0 rest))"
  by (simp add: sextet_char_decode sextet_char_not_pad)

lemma a2b_pad:
  "a2b_loop q l p (61 # rest) =
     (if q \<ge> 2 then (if q + (p + 1) \<ge> 4 then Inr [] else a2b_loop q l (p + 1) rest)
      else a2b_loop q l p rest)"
  by simp

lemmas a2b_enc = a2b_loop.simps(1) a2b_pad a2b_step

lemma urlsafe_b64encode_simps:
  "urlsafe_b64encode [] = []"
  "urlsafe_b64encode [a] = [sextet_char (a div 4), sextet_char ((a mod 4) * 16), 61, 61]"
  "urlsafe_b64encode [a, b] =
     [sextet_char (a div 4), sextet_char ((a mod 4) * 16 + b div 16),
      sextet_char ((b mod 16) * 4), 61]"
  "urlsafe_b64encode (a # b # c # rest) =
     [sextet_char (a div 4), sextet_char ((a mod 4) * 16 + b div 16),
      sextet_char ((b mod 16) * 4 + c div 64), sextet_char (c mod 64)]
     @ urlsafe_b64encode rest"
  by (simp_all add: urlsafe_b64encode_def sextet_char_def)

lemma sextet_bounds:
  "a < 256 \<Longrightarrow> a div 4 < (64::nat)"
  "(a mod 4) * 16 < (64::nat)"
  "b < 256 \<Longrightarrow> (a mod 4) * 16 + b div 16 < (64::nat)"
  "(b mod 16) * 4 < (64::nat)"
  "c < 256 \<Longrightarrow> (b mod 16) * 4 + c div 64 < (64::nat)"
  "c mod 64 < (64::nat)"
  by (simp_all; arith)+

lemma sextet_join:
  "(a div 4) * 4 + ((a mod 4) * 16) div 16 = (a::nat)"
  "b < 256 \<Longrightarrow> (a div 4) * 4 + ((a mod 4) * 16 + b div 16) div 16 = a"
  "b < 256 \<Longrightarrow> (((a mod 4) * 16 + b div 16) mod 16) * 16 + ((b mod 16) * 4) div 4 = b"
  "b < 256 \<Longrightarrow> c < 256 \<Longrightarrow>
     (((a mod 4) * 16 + b div 16) mod 16) * 16 + ((b mod 16) * 4 + c div 64) div 4 = b"
  "c < 256 \<Longrightarrow> (((b mod 16) * 4 + c div 64) mod 4) * 64 + c mod 64 = c"
  by (simp_all; arith)+

lemma small_div [simp]: "b < 256 \<Longrightarrow> b div 16 div 16 = (0::nat)"
  "c < 256 \<Longrightarrow> c div 64 div 4 = (0::nat)"
  by (simp_all add: div_mult2_eq[symmetric])

lemma small_join [simp]:
  "b < 256 \<Longrightarrow> b div 16 mod 16 * 16 + b mod 16 = (b::nat)"
  "c < 256 \<Longrightarrow> c div 64 mod 4 * 64 + c mod 64 = (c::nat)"
proof -
  show "b div 16 mod 16 * 16 + b mod 16 = b" if "b < 256"
  proof -
    from that have "b div 16 < 16" by simp
    then have "b div 16 mod 16 = b div 16" by simp
    then show ?thesis by simp
  qed
  show "c div 64 mod 4 * 64 + c mod 64 = c" if "c < 256"
  proof -
    from that have "c div 64 < 4" by simp
    then have "c div 64 mod 4 = c div 64" by simp
    then show ?thesis by simp
  qed
qed

lemma a2b_loop_encoded:
  "list_all (\<lambda>b. b < 256) bs \<Longrightarrow>
   a2b_loop 0 0 0 (map urlsafe_decode_translation (urlsafe_b64encode bs)) = Inr bs"
  by (induction bs rule: b2a_base64.induct)
     (simp_all del: a2b_loop.simps
        add: urlsafe_b64encode_simps a2b_enc sextet_bounds sextet_join)



lemma sextet_char_ne_pad [simp]: "sextet_char v \<noteq> 61"
  unfolding sextet_char_def urlsafe_encode_translation_def table_b2a_base64_def
  by (simp; arith)

lemma sextet_char_lt_128 [simp]: "sextet_char v < 128"
  unfolding sextet_char_def urlsafe_encode_translation_def table_b2a_base64_def
  by (simp; arith)

lemma repad_quad: "repad (a # b # c # d # s) = a # b # c # d # repad s"
proof -
  have "(- (x + 4)) mod 4 = (- x) mod (4::int)" for x
    by presburger
  from this [of "int (length s)"]
  have "(- int (length (a # b # c # d # s))) mod 4 = (- int (length s)) mod 4"
    by (simp add: add.commute)
  then show ?thesis unfolding repad_def by simp
qed

lemma rstrip_eq_app:
  "rstrip_eq (xs @ ys) =
     (if list_all (\<lambda>c. c = 61) ys then rstrip_eq xs else xs @ rstrip_eq ys)"
  by (auto simp: rstrip_eq_def dropWhile_append list_all_iff)

lemma rstrip_eq_Cons:
  "rstrip_eq (x # y # ys) =
     (if list_all (\<lambda>c. c = 61) (y # ys) then rstrip_eq [x] else x # rstrip_eq (y # ys))"
  using rstrip_eq_app [of "[x]" "y # ys"] by simp



lemma replicate_2 [simp]: "replicate 2 x = [x, x]"
  by (simp add: numeral_2_eq_2)

lemma rstrip_eq_Nil [simp]: "rstrip_eq [] = []"
  by (simp add: rstrip_eq_def)

lemma rstrip_eq_single: "rstrip_eq [x] = (if x = 61 then [] else [x])"
  by (simp add: rstrip_eq_def)

lemma encoded_not_all_pad:
  "bs \<noteq> [] \<Longrightarrow> \<not> list_all (\<lambda>c. c = 61) (urlsafe_b64encode bs)"
  by (cases bs rule: b2a_base64.cases) (simp_all add: urlsafe_b64encode_simps)

lemma repad_rstrip_encoded:
  "repad (rstrip_eq (urlsafe_b64encode bs)) = urlsafe_b64encode bs"
proof (induction bs rule: b2a_base64.induct)
  case 1
  show ?case by (simp add: urlsafe_b64encode_simps repad_def)
next
  case (2 a)
  show ?case
    by (simp add: urlsafe_b64encode_simps rstrip_eq_Cons rstrip_eq_single repad_def)
next
  case (3 a b)
  show ?case
    by (simp add: urlsafe_b64encode_simps rstrip_eq_Cons rstrip_eq_single repad_def)
next
  case (4 a b c rest)
  show ?case
  proof (cases "rest = []")
    case True
    then show ?thesis
      by (simp add: urlsafe_b64encode_simps rstrip_eq_Cons rstrip_eq_single repad_def)
  next
    case False
    then have notall: "\<not> list_all (\<lambda>c. c = 61) (urlsafe_b64encode rest)"
      by (rule encoded_not_all_pad)
    let ?q = "[sextet_char (a div 4), sextet_char ((a mod 4) * 16 + b div 16),
               sextet_char ((b mod 16) * 4 + c div 64), sextet_char (c mod 64)]"
    have e: "urlsafe_b64encode (a # b # c # rest) = ?q @ urlsafe_b64encode rest"
      by (simp add: urlsafe_b64encode_simps)
    have "rstrip_eq (?q @ urlsafe_b64encode rest) = ?q @ rstrip_eq (urlsafe_b64encode rest)"
      using notall by (simp only: rstrip_eq_app if_False)
    then show ?thesis using 4 unfolding e by (simp add: repad_quad)
  qed
qed

lemma encoded_ascii: "list_all (\<lambda>c. c < 128) (urlsafe_b64encode bs)"
  by (induction bs rule: b2a_base64.induct) (simp_all add: urlsafe_b64encode_simps)

lemma bytes_decode_ascii: "list_all (\<lambda>c. c < 128) xs \<Longrightarrow> bytes_decode xs = Inr xs"
  by (induction xs) simp_all

lemma urlsafe_b64decode_encoded:
  assumes "list_all (\<lambda>b. b < 256) bs"
  shows "urlsafe_b64decode (repad (rstrip_eq (urlsafe_b64encode bs))) = Inr bs"
  using assms
  by (simp add: urlsafe_b64decode_def repad_rstrip_encoded bytes_from_decode_data_def
      encoded_ascii a2b_base64_def a2b_loop_encoded)



lemma decode2:
  "128 \<le> c \<Longrightarrow> c < 2048 \<Longrightarrow>
   bytes_decode ([192 + c div 64, 128 + c mod 64] @ r) = emit c (bytes_decode r)"
proof -
  assume a: "128 \<le> c" "c < 2048"
  then have "2 \<le> c div 64" "c div 64 < 32" by simp_all
  then have b0: "194 \<le> 192 + c div 64" "192 + c div 64 \<le> 223" "\<not> 192 + c div 64 < 128"
    by simp_all
  have b1: "cont (128 + c mod 64)" by (simp add: cont_def)
  have v: "(192 + c div 64 - 192) * 64 + (128 + c mod 64 - 128) = c" by simp
  show ?thesis
    by (simp only: append.simps bytes_decode.simps b0 b1 v if_True if_False list.case simp_thms)
qed

lemma decode3:
  "2048 \<le> c \<Longrightarrow> c < 65536 \<Longrightarrow> \<not> (55296 \<le> c \<and> c \<le> 57343) \<Longrightarrow>
   bytes_decode ([224 + c div 4096, 128 + (c div 64) mod 64, 128 + c mod 64] @ r)
     = emit c (bytes_decode r)"
proof -
  assume a: "2048 \<le> c" "c < 65536" "\<not> (55296 \<le> c \<and> c \<le> 57343)"
  then have "c div 4096 < 16" by simp
  then have b0: "\<not> 224 + c div 4096 < 128" "\<not> (194 \<le> 224 + c div 4096 \<and> 224 + c div 4096 \<le> 223)"
    "224 \<le> 224 + c div 4096 \<and> 224 + c div 4096 \<le> 239"
    by simp_all
  have s: "second_ok3 (224 + c div 4096) (128 + (c div 64) mod 64)"
  proof -
    define h where "h = c div 4096"
    define m where "m = (c div 64) mod 64"
    have m: "m < 64" by (simp add: m_def)
    have lo: "32 \<le> m" if "h = 0"
    proof -
      from that have "c < 4096" by (simp add: h_def div_eq_0_iff)
      then have "c div 64 < 64" by simp
      moreover from a have "32 \<le> c div 64" by simp
      ultimately show ?thesis by (simp add: m_def)
    qed
    have hi: "m < 32" if "h = 13"
    proof -
      have "c div 64 div 64 = 13" using that by (simp add: h_def div_mult2_eq[symmetric])
      then have "(c div 64) mod 64 = c div 64 - 13 * 64"
        by (metis add_diff_cancel_left' mult.commute mult_div_mod_eq)
      moreover have "c < 55296" using a that by (cases "c < 55296") (simp_all add: not_less h_def)
      then have "c div 64 < 864" by simp
      ultimately show ?thesis by (simp add: m_def)
    qed
    have "second_ok3 (224 + h) (128 + m)"
      using m lo hi by (auto simp: second_ok3_def cont_def)
    then show ?thesis by (simp only: h_def m_def)
  qed
  have b2: "cont (128 + c mod 64)" by (simp add: cont_def)
  have v: "(224 + c div 4096 - 224) * 4096 + (128 + (c div 64) mod 64 - 128) * 64
            + (128 + c mod 64 - 128) = c"
  proof -
    have "c div 4096 * 4096 + (c div 64) mod 64 * 64 + c mod 64
          = (c div 64 div 64 * 64 + (c div 64) mod 64) * 64 + c mod 64"
      by (simp add: div_mult2_eq[symmetric] algebra_simps)
    also have "\<dots> = c" by simp
    finally show ?thesis by simp
  qed
  show ?thesis
    by (simp only: append.simps bytes_decode.simps b0 s b2 v if_True if_False list.case simp_thms)
qed

lemma decode4:
  "65536 \<le> c \<Longrightarrow> c < 1114112 \<Longrightarrow>
   bytes_decode ([240 + c div 262144, 128 + (c div 4096) mod 64, 128 + (c div 64) mod 64,
                  128 + c mod 64] @ r)
     = emit c (bytes_decode r)"
proof -
  assume a: "65536 \<le> c" "c < 1114112"
  then have "c div 262144 < 5" by simp
  then have b0: "\<not> 240 + c div 262144 < 128"
    "\<not> (194 \<le> 240 + c div 262144 \<and> 240 + c div 262144 \<le> 223)"
    "\<not> (224 \<le> 240 + c div 262144 \<and> 240 + c div 262144 \<le> 239)"
    "240 \<le> 240 + c div 262144 \<and> 240 + c div 262144 \<le> 244"
    by simp_all
  have s: "second_ok4 (240 + c div 262144) (128 + (c div 4096) mod 64)"
  proof -
    define h where "h = c div 262144"
    define m where "m = (c div 4096) mod 64"
    have m: "m < 64" by (simp add: m_def)
    have lo: "16 \<le> m" if "h = 0"
    proof -
      from that have "c < 262144" by (simp add: h_def div_eq_0_iff)
      then have "c div 4096 < 64" by simp
      moreover from a have "16 \<le> c div 4096" by simp
      ultimately show ?thesis by (simp add: m_def)
    qed
    have hi: "m < 16" if "h = 4"
    proof -
      have "c div 4096 div 64 = 4" using that by (simp add: h_def div_mult2_eq[symmetric])
      then have "(c div 4096) mod 64 = c div 4096 - 4 * 64"
        by (metis add_diff_cancel_left' mult.commute mult_div_mod_eq)
      moreover have "c div 4096 < 272" using a by simp
      ultimately show ?thesis by (simp add: m_def)
    qed
    have "second_ok4 (240 + h) (128 + m)"
      using m lo hi by (auto simp: second_ok4_def cont_def)
    then show ?thesis by (simp only: h_def m_def)
  qed
  have b2: "cont (128 + (c div 64) mod 64)" "cont (128 + c mod 64)" by (simp_all add: cont_def)
  have v: "(240 + c div 262144 - 240) * 262144 + (128 + (c div 4096) mod 64 - 128) * 4096
            + (128 + (c div 64) mod 64 - 128) * 64 + (128 + c mod 64 - 128) = c"
  proof -
    have "c div 262144 * 262144 + (c div 4096) mod 64 * 4096 + (c div 64) mod 64 * 64 + c mod 64
          = ((c div 64 div 64 div 64 * 64 + (c div 64 div 64) mod 64) * 64 + (c div 64) mod 64) * 64
            + c mod 64"
      by (simp add: div_mult2_eq[symmetric] algebra_simps)
    also have "\<dots> = c" by simp
    finally show ?thesis by simp
  qed
  show ?thesis
    by (simp only: append.simps bytes_decode.simps b0 s b2 v if_True if_False list.case simp_thms)
qed

lemma emit_emits: "emit c (Inr xs) = Inr (c # xs)"
  by simp

lemma bytes_decode_str_encode:
  "str_encode s = Inr bs \<Longrightarrow> bytes_decode bs = Inr s"
proof (induction s arbitrary: bs)
  case Nil
  then show ?case by simp
next
  case (Cons c cs)
  from Cons.prems obtain bs' where enc: "str_encode cs = Inr bs'"
    by (cases "str_encode cs") (simp_all split: if_splits)
  then have dec: "bytes_decode bs' = Inr cs" by (rule Cons.IH)
  consider "c < 128" | "128 \<le> c" "c < 2048"
    | "2048 \<le> c" "c < 65536" | "65536 \<le> c" "c < 1114112" | "1114112 \<le> c"
    by linarith
  then show ?case
  proof cases
    case 1
    with Cons.prems enc have "bs = c # bs'" by simp
    with 1 dec show ?thesis by simp
  next
    case 2
    with Cons.prems enc have b: "bs = [192 + c div 64, 128 + c mod 64] @ bs'" by simp
    from decode2 [OF 2, of bs'] dec show ?thesis unfolding b by (simp only: emit_emits)
  next
    case 3
    with Cons.prems enc have ns: "\<not> (55296 \<le> c \<and> c \<le> 57343)"
      by (auto split: if_splits)
    with 3 Cons.prems enc
    have b: "bs = [224 + c div 4096, 128 + (c div 64) mod 64, 128 + c mod 64] @ bs'" by simp
    from decode3 [OF 3 ns, of bs'] dec show ?thesis unfolding b by (simp only: emit_emits)
  next
    case 4
    with Cons.prems enc
    have b: "bs = [240 + c div 262144, 128 + (c div 4096) mod 64, 128 + (c div 64) mod 64,
                128 + c mod 64] @ bs'" by simp
    from decode4 [OF 4, of bs'] dec show ?thesis unfolding b by (simp only: emit_emits)
  next
    case 5
    with Cons.prems show ?thesis by simp
  qed
qed

lemma str_encode_total:
  "list_all scalar_value s \<Longrightarrow> \<exists>bs. str_encode s = Inr bs"
  by (induction s) (auto simp: scalar_value_def)

lemma str_encode_octets:
  "str_encode s = Inr bs \<Longrightarrow> list_all (\<lambda>b. b < 256) bs"
proof (induction s arbitrary: bs)
  case Nil
  then show ?case by simp
next
  case (Cons c cs)
  from Cons.prems obtain bs' where enc: "str_encode cs = Inr bs'"
    by (cases "str_encode cs") (simp_all split: if_splits)
  then have oct: "list_all (\<lambda>b. b < 256) bs'" by (rule Cons.IH)
  have d: "c < 2048 \<Longrightarrow> c div 64 < 32" "c < 65536 \<Longrightarrow> c div 4096 < 16"
    "c < 1114112 \<Longrightarrow> c div 262144 < 5" "c mod 64 < 64" "(c div 64) mod 64 < 64"
    "(c div 4096) mod 64 < 64"
    by simp_all
  show ?case using Cons.prems enc oct d
    by (auto split: if_splits)
qed

section \<open>Properties of the codec\<close>

lemma base64_unified_file_id_encoded:
  "str_encode t = Inr raw \<Longrightarrow>
   base64_unified_file_id t = Inr (rstrip_eq (urlsafe_b64encode raw))"
  by (simp add: base64_unified_file_id_def bytes_decode_ascii encoded_ascii)

lemma decode_encoded_token:
  assumes "str_encode t = Inr raw"
  shows "try_decode (repad (rstrip_eq (urlsafe_b64encode raw))) = Inr t"
proof -
  from assms have "list_all (\<lambda>b. b < 256) raw" by (rule str_encode_octets)
  then have "urlsafe_b64decode (repad (rstrip_eq (urlsafe_b64encode raw))) = Inr raw"
    by (rule urlsafe_b64decode_encoded)
  moreover from assms have "bytes_decode raw = Inr t" by (rule bytes_decode_str_encode)
  ultimately show ?thesis by (simp add: try_decode_def)
qed

lemma is_base64_encoded_token:
  "str_encode t = Inr raw \<Longrightarrow> startswith t pfx \<Longrightarrow>
   is_base64_encoded_unified_file_id pfx (rstrip_eq (urlsafe_b64encode raw)) = Some t"
  by (simp add: is_base64_encoded_unified_file_id_def decode_encoded_token)

lemma is_base64_Some_iff:
  "is_base64_encoded_unified_file_id pfx s = Some d \<longleftrightarrow>
     try_decode (repad s) = Inr d \<and> startswith d pfx"
  by (auto simp: is_base64_encoded_unified_file_id_def split: sum.splits)

lemma is_base64_prefixed:
  "is_base64_encoded_unified_file_id pfx s = Some d \<Longrightarrow> startswith d pfx"
  by (simp add: is_base64_Some_iff)

lemma bytes_decode_bad_lead:
  "\<not> lead_byte b \<Longrightarrow> bytes_decode (b # bs) = Inl UnicodeDecodeError"
  by (auto simp: lead_byte_def)

lemma emit_cases:
  "(\<exists>e. emit b r = Inl e) \<or> (\<exists>xs. emit b r = Inr (b # xs))"
  by (cases r) (simp_all add: emit_def)

lemma a2b_two_chars:
  assumes "table_a2b_base64 c0 = Some v0" "table_a2b_base64 c1 = Some v1"
  shows "a2b_loop 0 0 0 (c0 # c1 # rest) =
           emit (v0 * 4 + v1 div 16) (a2b_loop 2 (v1 mod 16) 0 rest)"
proof -
  have "c0 \<noteq> 61" "c1 \<noteq> 61" using assms by (auto simp: table_a2b_base64_def)
  then show ?thesis using assms by simp
qed

lemma reserved_prefix_not_decodable:
  assumes res: "reserved_prefix pfx" and sw: "startswith s pfx"
  shows "is_base64_encoded_unified_file_id pfx s = None"
proof -
  from res obtain c0 c1 pr v0 v1 where
    pfx: "pfx = c0 # c1 # pr" and
    v0: "table_a2b_base64 (urlsafe_decode_translation c0) = Some v0" and
    v1: "table_a2b_base64 (urlsafe_decode_translation c1) = Some v1" and
    bad: "\<not> lead_byte (v0 * 4 + v1 div 16)"
    by (auto simp: reserved_prefix_def split: list.splits option.splits)
  from sw pfx obtain sr where s: "s = c0 # c1 # sr"
    by (cases s; cases "tl s") (auto simp: startswith_def)
  obtain tail where rp: "repad s = c0 # c1 # tail"
    by (simp add: repad_def s)
  have "try_decode (repad s) = Inl e \<Longrightarrow> ?thesis" for e
    by (simp add: is_base64_encoded_unified_file_id_def)
  moreover have "\<exists>e. try_decode (repad s) = Inl e"
  proof (cases "bytes_from_decode_data (repad s)")
    case (Inl e)
    then show ?thesis by (simp add: try_decode_def urlsafe_b64decode_def)
  next
    case (Inr bs)
    then have bs: "bs = repad s" by (simp add: bytes_from_decode_data_def split: if_splits)
    let ?b = "v0 * 4 + v1 div 16"
    let ?r = "a2b_loop 2 (v1 mod 16) 0 (map urlsafe_decode_translation tail)"
    have dec: "urlsafe_b64decode (repad s) = emit ?b ?r"
      using Inr bs rp a2b_two_chars [OF v0 v1]
      by (simp add: urlsafe_b64decode_def a2b_base64_def del: a2b_loop.simps)
    from emit_cases [of ?b ?r] show ?thesis
    proof
      assume "\<exists>e. emit ?b ?r = Inl e"
      then obtain e where "emit ?b ?r = Inl e" ..
      then show ?thesis using dec by (simp add: try_decode_def)
    next
      assume "\<exists>xs. emit ?b ?r = Inr (?b # xs)"
      then obtain xs where "emit ?b ?r = Inr (?b # xs)" ..
      then show ?thesis using dec bad
        by (simp add: try_decode_def bytes_decode_bad_lead del: bytes_decode.simps)
    qed
  qed
  ultimately show ?thesis by blast
qed


lemma convert_cases:
  "(convert_b64_uid_to_unified_uid pfx x = x \<and>
      (is_base64_encoded_unified_file_id pfx x = None \<or>
       is_base64_encoded_unified_file_id pfx x = Some []))
   \<or> (is_base64_encoded_unified_file_id pfx x = Some (convert_b64_uid_to_unified_uid pfx x)
        \<and> convert_b64_uid_to_unified_uid pfx x \<noteq> [])"
  by (auto simp: convert_b64_uid_to_unified_uid_def split: option.splits)

lemma convert_fixed:
  "is_base64_encoded_unified_file_id pfx x = None \<Longrightarrow> convert_b64_uid_to_unified_uid pfx x = x"
  by (simp add: convert_b64_uid_to_unified_uid_def)

lemma convert_idem:
  assumes "reserved_prefix pfx"
  shows "convert_b64_uid_to_unified_uid pfx (convert_b64_uid_to_unified_uid pfx x)
           = convert_b64_uid_to_unified_uid pfx x"
proof -
  let ?n = "convert_b64_uid_to_unified_uid pfx x"
  from convert_cases [of pfx x]
  consider "?n = x" | "is_base64_encoded_unified_file_id pfx x = Some ?n"
    by blast
  then show ?thesis
  proof cases
    case 1
    then show ?thesis by simp
  next
    case 2
    then have "startswith ?n pfx" by (rule is_base64_prefixed)
    with assms have "is_base64_encoded_unified_file_id pfx ?n = None"
      by (rule reserved_prefix_not_decodable)
    then show ?thesis by (rule convert_fixed)
  qed
qed

lemma lit_prefix: "lit ''litellm_proxy'' = [108,105,116,101,108,108,109,95,112,114,111,120,121]"
  by (simp add: lit_def)

lemma reserved_litellm_proxy: "reserved_prefix (lit ''litellm_proxy'')"
  by (simp add: lit_prefix reserved_prefix_def table_a2b_base64_def
      urlsafe_decode_translation_def lead_byte_def)

section \<open>The codec: claims\<close>

text \<open>
  C4. Round trip of the identifier codec: for every content type and UUID string, both text
  of Unicode scalar values, rendering the token, encoding it as UTF-8, URL-safe base64
  without padding, and decoding the result with \<open>_is_base64_encoded_unified_file_id\<close>
  gives back exactly the token.
\<close>

theorem codec_round_trip:
  assumes "list_all scalar_value pfx"
    and "list_all scalar_value file_type"
    and "list_all scalar_value uuid4"
  shows "\<exists>b64. base64_unified_file_id (unified_file_id pfx file_type uuid4) = Inr b64 \<and>
           is_base64_encoded_unified_file_id pfx b64 = Some (unified_file_id pfx file_type uuid4)"
proof -
  let ?t = "unified_file_id pfx file_type uuid4"
  have "list_all scalar_value ?t"
    using assms
    by (simp add: unified_file_id_def LITELLM_MANAGED_FILE_COMPLETE_STR_def scalar_value_def)
  then obtain raw where raw: "str_encode ?t = Inr raw"
    using str_encode_total by blast
  have sw: "startswith ?t pfx"
    by (simp add: unified_file_id_def LITELLM_MANAGED_FILE_COMPLETE_STR_def startswith_def)
  from raw have "base64_unified_file_id ?t = Inr (rstrip_eq (urlsafe_b64encode raw))"
    by (rule base64_unified_file_id_encoded)
  moreover from raw sw
  have "is_base64_encoded_unified_file_id pfx (rstrip_eq (urlsafe_b64encode raw)) = Some ?t"
    by (rule is_base64_encoded_token)
  ultimately show ?thesis by blast
qed

theorem codec_round_trip_witness:
  "list_all scalar_value (lit ''litellm_proxy'') \<and>
   list_all scalar_value (lit ''application/pdf'') \<and>
   list_all scalar_value (lit ''123e4567-e89b-42d3-a456-426614174000'') \<and>
   (\<exists>b64. base64_unified_file_id
            (unified_file_id (lit ''litellm_proxy'') (lit ''application/pdf'')
               (lit ''123e4567-e89b-42d3-a456-426614174000'')) = Inr b64 \<and>
          is_base64_encoded_unified_file_id (lit ''litellm_proxy'') b64 =
            Some (unified_file_id (lit ''litellm_proxy'') (lit ''application/pdf'')
                    (lit ''123e4567-e89b-42d3-a456-426614174000'')))"
proof -
  have a: "list_all scalar_value (lit ''litellm_proxy'')"
    by (simp add: lit_def scalar_value_def)
  have b: "list_all scalar_value (lit ''application/pdf'')"
    by (simp add: lit_def scalar_value_def)
  have c: "list_all scalar_value (lit ''123e4567-e89b-42d3-a456-426614174000'')"
    by (simp add: lit_def scalar_value_def)
  from codec_round_trip [OF a b c] a b c show ?thesis by blast
qed

text \<open>
  C5. Normalisation is idempotent: with a reserved sentinel, converting the result of
  \<open>convert_b64_uid_to_unified_uid\<close> again changes nothing.
\<close>

theorem convert_idempotent:
  "reserved_prefix pfx \<Longrightarrow>
   convert_b64_uid_to_unified_uid pfx (convert_b64_uid_to_unified_uid pfx x)
     = convert_b64_uid_to_unified_uid pfx x"
  by (rule convert_idem)

theorem convert_idempotent_witness:
  "reserved_prefix (lit ''litellm_proxy'') \<and>
   convert_b64_uid_to_unified_uid (lit ''litellm_proxy'')
     (convert_b64_uid_to_unified_uid (lit ''litellm_proxy'') (lit ''bGl0ZWxsbV9wcm94eSxhLGI''))
   = convert_b64_uid_to_unified_uid (lit ''litellm_proxy'') (lit ''bGl0ZWxsbV9wcm94eSxhLGI'')"
  using convert_idempotent [OF reserved_litellm_proxy, of "lit ''bGl0ZWxsbV9wcm94eSxhLGI''"]
    reserved_litellm_proxy
  by blast

text \<open>
  C6. \<open>_is_base64_encoded_unified_file_id\<close> is total: it returns the decoded token exactly
  when the re-padded input decodes as URL-safe base64 to UTF-8 text that starts with the
  sentinel, and \<open>False\<close> otherwise; the empty string gives \<open>False\<close>, and so does every input
  whose base64 decoding fails or whose decoded octets are not UTF-8.
\<close>

theorem is_base64_total:
  assumes "pfx \<noteq> []"
  shows "(is_base64_encoded_unified_file_id pfx s = Some d \<longleftrightarrow>
            (\<exists>raw. urlsafe_b64decode (repad s) = Inr raw \<and> bytes_decode raw = Inr d \<and>
                   startswith d pfx)) \<and>
         is_base64_encoded_unified_file_id pfx [] = None \<and>
         ((\<exists>e. urlsafe_b64decode (repad s) = Inl e) \<longrightarrow>
            is_base64_encoded_unified_file_id pfx s = None) \<and>
         ((\<exists>raw e. urlsafe_b64decode (repad s) = Inr raw \<and> bytes_decode raw = Inl e) \<longrightarrow>
            is_base64_encoded_unified_file_id pfx s = None)"
proof (intro conjI impI)
  show "is_base64_encoded_unified_file_id pfx s = Some d \<longleftrightarrow>
          (\<exists>raw. urlsafe_b64decode (repad s) = Inr raw \<and> bytes_decode raw = Inr d \<and>
                 startswith d pfx)"
    by (auto simp: is_base64_Some_iff try_decode_def split: sum.splits)
next
  have "try_decode (repad []) = Inr []"
    by (simp add: try_decode_def repad_def urlsafe_b64decode_def bytes_from_decode_data_def
        a2b_base64_def)
  moreover have "\<not> startswith [] pfx" using assms by (simp add: startswith_def)
  ultimately show "is_base64_encoded_unified_file_id pfx [] = None"
    by (simp add: is_base64_encoded_unified_file_id_def)
next
  assume "\<exists>e. urlsafe_b64decode (repad s) = Inl e"
  then show "is_base64_encoded_unified_file_id pfx s = None"
    by (auto simp: is_base64_encoded_unified_file_id_def try_decode_def)
next
  assume "\<exists>raw e. urlsafe_b64decode (repad s) = Inr raw \<and> bytes_decode raw = Inl e"
  then show "is_base64_encoded_unified_file_id pfx s = None"
    by (auto simp: is_base64_encoded_unified_file_id_def try_decode_def)
qed

theorem is_base64_total_witness:
  "lit ''litellm_proxy'' \<noteq> [] \<and>
   urlsafe_b64decode (repad (lit ''_w'')) = Inr [255] \<and>
   bytes_decode [255] = Inl UnicodeDecodeError \<and>
   is_base64_encoded_unified_file_id (lit ''litellm_proxy'') (lit ''_w'') = None \<and>
   is_base64_encoded_unified_file_id (lit ''litellm_proxy'') [] = None"
proof -
  have a: "lit ''litellm_proxy'' \<noteq> []" by (simp add: lit_def)
  have b: "urlsafe_b64decode (repad (lit ''_w'')) = Inr [255]"
    by (simp add: lit_def repad_def urlsafe_b64decode_def bytes_from_decode_data_def
        a2b_base64_def urlsafe_decode_translation_def table_a2b_base64_def)
  have c: "bytes_decode [255] = Inl UnicodeDecodeError" by simp
  from is_base64_total [OF a, of "lit ''_w''"] a b c show ?thesis by blast
qed

text \<open>
  C10. The static method \<open>_convert_b64_uid_to_unified_uid\<close> and the instance method
  \<open>convert_b64_uid_to_unified_uid\<close> return the same string on every input.
\<close>

theorem static_and_instance_convert_agree:
  "static_convert_b64_uid_to_unified_uid pfx b64_uid = convert_b64_uid_to_unified_uid pfx b64_uid"
  unfolding static_convert_b64_uid_to_unified_uid_def convert_b64_uid_to_unified_uid_def
  by (rule refl)

section \<open>The cache, the fan-outs and the file operations\<close>

lemma resolve_ids_world:
  "snd (resolve_ids w ids acc) = w\<lparr>trace := trace w @ map CacheGet ids\<rparr>"
  by (induction ids arbitrary: w acc)
     (simp_all add: async_get_cache_def split: option.splits)

lemma get_model_file_id_mapping_world:
  "snd (get_model_file_id_mapping pfx w ids)
     = w\<lparr>trace := trace w @ map CacheGet (litellm_managed_file_ids pfx ids)\<rparr>"
  by (simp add: get_model_file_id_mapping_def resolve_ids_world)

lemma router_calls_append_gets [simp]:
  "router_calls (w\<lparr>trace := trace w @ map CacheGet ks\<rparr>) = router_calls w"
  by (simp add: router_calls_def filter_empty_conv)



lemma managed_single:
  "is_base64_encoded_unified_file_id pfx n = None \<Longrightarrow>
   litellm_managed_file_ids pfx [n] = (if startswith n pfx then [n] else [])"
  by simp

lemma mapping_single:
  assumes "is_base64_encoded_unified_file_id pfx n = None"
  shows "map_of (fst (get_model_file_id_mapping pfx w [n])) n
           = (if startswith n pfx \<and> cache_truthy (cache w n) then cache w n else None)"
  using assms
  by (auto simp: get_model_file_id_mapping_def async_get_cache_def split: option.splits)

lemma world_trace_id [simp]: "w\<lparr>trace := trace w @ []\<rparr> = (w::world)"
  by simp





lemma delete_fan_out_success:
  assumes "\<forall>p \<in> set m. router_afile_delete rt (fst p) (snd p) = None"
  shows "delete_fan_out rt w m fid
           = (Inr (if m = [] then fid else snd (last m)),
              w\<lparr>trace := trace w @ map delete_call m\<rparr>)"
  using assms
proof (induction m arbitrary: w fid)
  case Nil
  then show ?case by simp
next
  case (Cons p m)
  obtain a b where p: "p = (a, b)" by (cases p)
  from Cons.prems p have ok: "router_afile_delete rt a b = None" by simp
  from Cons.prems
  have rest: "\<forall>p \<in> set m. router_afile_delete rt (fst p) (snd p) = None" by simp
  show ?case
    using Cons.IH [OF rest] p ok
    by (simp add: delete_call_def)
qed

lemma delete_fan_out_failure:
  assumes "\<forall>p \<in> set pre. router_afile_delete rt (fst p) (snd p) = None"
    and "router_afile_delete rt mid bfid = Some msg"
  shows "delete_fan_out rt w (pre @ (mid, bfid) # post) fid
           = (Inl (BackendFailure msg),
              w\<lparr>trace := trace w @ map delete_call (pre @ [(mid, bfid)])\<rparr>)"
  using assms
proof (induction pre arbitrary: w fid)
  case Nil
  then show ?case by (simp add: delete_call_def)
next
  case (Cons p pre)
  obtain a b where p: "p = (a, b)" by (cases p)
  from Cons.prems p have ok: "router_afile_delete rt a b = None" by simp
  from Cons.prems
  have rest: "\<forall>p \<in> set pre. router_afile_delete rt (fst p) (snd p) = None" by simp
  show ?case
    using Cons.IH [OF rest Cons.prems(2)] p ok
    by (simp add: delete_call_def)
qed

lemma router_calls_append:
  "router_calls (w\<lparr>trace := trace w @ es\<rparr>) = router_calls w @ filter is_router_call es"
  by (simp add: router_calls_def)

lemma is_router_call_calls [simp]:
  "is_router_call (content_call p)" "is_router_call (delete_call p)"
  by (simp_all add: content_call_def delete_call_def)

lemma filter_content_calls [simp]: "filter is_router_call (map content_call m) = map content_call m"
  by (induction m) (simp_all add: content_call_def)

lemma filter_delete_calls [simp]: "filter is_router_call (map delete_call m) = map delete_call m"
  by (induction m) (simp_all add: delete_call_def)

lemma example_prefix_reserved: "reserved_prefix example_prefix"
  unfolding example_prefix_def by (rule reserved_litellm_proxy)

lemma example_token_prefixed: "startswith example_token example_prefix"
  by (simp add: example_token_def example_prefix_def startswith_def lit_def)

lemma example_token_not_decodable:
  "is_base64_encoded_unified_file_id example_prefix example_token = None"
  using example_prefix_reserved example_token_prefixed by (rule reserved_prefix_not_decodable)

lemma example_token_convert:
  "convert_b64_uid_to_unified_uid example_prefix example_token = example_token"
  using example_token_not_decodable by (rule convert_fixed)

lemma two_backend_specific:
  "map_of (fst (get_model_file_id_mapping example_prefix two_backend_world
                  [convert_b64_uid_to_unified_uid example_prefix example_token]))
          (convert_b64_uid_to_unified_uid example_prefix example_token)
     = Some (BackendMapping two_backends)"
  by (simp add: example_token_convert mapping_single [OF example_token_not_decodable]
      example_token_prefixed two_backend_world_def two_backends_def)


lemma lit_a_b [simp]: "lit ''a'' \<noteq> lit ''b''" "lit ''b'' \<noteq> lit ''a''"
  by (simp_all add: lit_def)

lemma router_calls_start [simp]:
  "router_calls two_backend_world = []" "router_calls empty_world = []"
  by (simp_all add: router_calls_def two_backend_world_def empty_world_def)



lemma delete_unified_file_id_router_calls:
  "router_calls (snd (delete_unified_file_id w f)) = router_calls w"
  by (simp add: delete_unified_file_id_def async_get_cache_def async_set_cache_def
      router_calls_def Let_def split: option.splits cache_value.splits)

lemma afile_delete_all_ok:
  assumes "map_of (fst (get_model_file_id_mapping pfx w [convert_b64_uid_to_unified_uid pfx fid]))
             (convert_b64_uid_to_unified_uid pfx fid) = Some (BackendMapping m)"
    and "m \<noteq> []"
    and "\<forall>p \<in> set m. router_afile_delete rt (fst p) (snd p) = None"
  shows "afile_delete pfx rt w fid
           = delete_unified_file_id
               ((snd (get_model_file_id_mapping pfx w [convert_b64_uid_to_unified_uid pfx fid]))
                  \<lparr>trace := trace (snd (get_model_file_id_mapping pfx w
                                          [convert_b64_uid_to_unified_uid pfx fid]))
                            @ map delete_call m\<rparr>)
               (snd (last m))"
  using assms delete_fan_out_success [OF assms(3)]
  by (simp add: afile_delete_def Let_def case_prod_beta)

lemma afile_delete_failure:
  assumes "map_of (fst (get_model_file_id_mapping pfx w [convert_b64_uid_to_unified_uid pfx fid]))
             (convert_b64_uid_to_unified_uid pfx fid)
           = Some (BackendMapping (pre @ (mid, bfid) # post))"
    and "\<forall>p \<in> set pre. router_afile_delete rt (fst p) (snd p) = None"
    and "router_afile_delete rt mid bfid = Some msg"
  shows "afile_delete pfx rt w fid
           = (Inl (BackendFailure msg),
              (snd (get_model_file_id_mapping pfx w [convert_b64_uid_to_unified_uid pfx fid]))
                  \<lparr>trace := trace (snd (get_model_file_id_mapping pfx w
                                          [convert_b64_uid_to_unified_uid pfx fid]))
                            @ map delete_call (pre @ [(mid, bfid)])\<rparr>)"
  using assms(1) delete_fan_out_failure [OF assms(2,3)]
  by (simp add: afile_delete_def Let_def case_prod_beta)

text \<open>
  C2, as amended. \<open>afile_delete\<close> with a backend mapping found: the deletes go to the
  backends in the mapping's order; when all succeed every backend has been called once, and
  the first delete that fails ends the loop with that failure as the operation's result,
  no later backend being called and the cache left as it was.
\<close>

theorem afile_delete_fan_out:
  assumes "found = map_of (fst (get_model_file_id_mapping pfx w
                                  [convert_b64_uid_to_unified_uid pfx fid]))
                          (convert_b64_uid_to_unified_uid pfx fid)"
  shows "(found = Some (BackendMapping m) \<and> m \<noteq> [] \<and>
            (\<forall>p \<in> set m. router_afile_delete rt (fst p) (snd p) = None)
          \<longrightarrow> router_calls (snd (afile_delete pfx rt w fid))
                = router_calls w @ map delete_call m) \<and>
         (found = Some (BackendMapping (pre @ (mid, bfid) # post)) \<and>
            (\<forall>p \<in> set pre. router_afile_delete rt (fst p) (snd p) = None) \<and>
            router_afile_delete rt mid bfid = Some msg
          \<longrightarrow> fst (afile_delete pfx rt w fid) = Inl (BackendFailure msg) \<and>
              router_calls (snd (afile_delete pfx rt w fid))
                = router_calls w @ map delete_call (pre @ [(mid, bfid)]) \<and>
              cache (snd (afile_delete pfx rt w fid)) = cache w)"
proof (intro conjI impI)
  let ?n = "convert_b64_uid_to_unified_uid pfx fid"
  let ?G = "get_model_file_id_mapping pfx w [?n]"
  have rc: "router_calls (snd ?G) = router_calls w"
    by (simp add: get_model_file_id_mapping_world)
  have ca: "cache (snd ?G) = cache w"
    by (simp add: get_model_file_id_mapping_world)
  {
    assume h: "found = Some (BackendMapping m) \<and> m \<noteq> [] \<and>
            (\<forall>p \<in> set m. router_afile_delete rt (fst p) (snd p) = None)"
    with assms have s: "map_of (fst ?G) ?n = Some (BackendMapping m)"
      and ne: "m \<noteq> []"
      and p: "\<forall>p \<in> set m. router_afile_delete rt (fst p) (snd p) = None"
      by simp_all
    from afile_delete_all_ok [OF s ne p] show "router_calls (snd (afile_delete pfx rt w fid)) = router_calls w @ map delete_call m"
      by (simp add: delete_unified_file_id_router_calls router_calls_append rc)
  }
  {
    assume h: "found = Some (BackendMapping (pre @ (mid, bfid) # post)) \<and>
            (\<forall>p \<in> set pre. router_afile_delete rt (fst p) (snd p) = None) \<and>
            router_afile_delete rt mid bfid = Some msg"
    with assms have s: "map_of (fst ?G) ?n = Some (BackendMapping (pre @ (mid, bfid) # post))"
      and p: "\<forall>p \<in> set pre. router_afile_delete rt (fst p) (snd p) = None"
      and f: "router_afile_delete rt mid bfid = Some msg"
      by simp_all
    note r = afile_delete_failure [OF s p f]
    show "fst (afile_delete pfx rt w fid) = Inl (BackendFailure msg)" by (simp add: r)
    show "router_calls (snd (afile_delete pfx rt w fid))
            = router_calls w @ map delete_call (pre @ [(mid, bfid)])"
      unfolding r snd_conv router_calls_append rc by simp
    show "cache (snd (afile_delete pfx rt w fid)) = cache w"
      by (simp add: r ca)
  }
qed

theorem afile_delete_fan_out_witness:
  "router_afile_delete first_fails (lit ''a'') (lit ''file-a'') = Some (lit ''down'') \<and>
   router_afile_delete all_succeed (lit ''a'') (lit ''file-a'') = None \<and>
   fst (afile_delete example_prefix first_fails two_backend_world example_token)
     = Inl (BackendFailure (lit ''down'')) \<and>
   router_calls (snd (afile_delete example_prefix first_fails two_backend_world example_token))
     = [RouterFileDelete (lit ''a'') (lit ''file-a'')] \<and>
   cache (snd (afile_delete example_prefix first_fails two_backend_world example_token))
     = cache two_backend_world \<and>
   router_calls (snd (afile_delete example_prefix all_succeed two_backend_world example_token))
     = [RouterFileDelete (lit ''a'') (lit ''file-a''),
        RouterFileDelete (lit ''b'') (lit ''file-b'')]"
proof -
  note T = afile_delete_fan_out [OF refl, where pfx = example_prefix and fid = example_token
      and w = two_backend_world and m = two_backends and pre = "[]" and mid = "lit ''a''"
      and bfid = "lit ''file-a''" and post = "[(lit ''b'', lit ''file-b'')]"
      and msg = "lit ''down''"]
  have r1: "router_afile_delete first_fails (lit ''a'') (lit ''file-a'') = Some (lit ''down'')"
    and r2: "router_afile_delete all_succeed (lit ''a'') (lit ''file-a'') = None"
    by (simp_all add: first_fails_def all_succeed_def)
  have hA: "map_of (fst (get_model_file_id_mapping example_prefix two_backend_world
                  [convert_b64_uid_to_unified_uid example_prefix example_token]))
              (convert_b64_uid_to_unified_uid example_prefix example_token)
            = Some (BackendMapping two_backends) \<and> two_backends \<noteq> [] \<and>
          (\<forall>p \<in> set two_backends. router_afile_delete all_succeed (fst p) (snd p) = None)"
    using two_backend_specific by (simp add: two_backends_def all_succeed_def)
  have A: "router_calls (snd (afile_delete example_prefix all_succeed two_backend_world
                                example_token))
             = router_calls two_backend_world @ map delete_call two_backends"
    by (rule T [where rt = all_succeed, THEN conjunct1, THEN mp, OF hA])
  have hB: "map_of (fst (get_model_file_id_mapping example_prefix two_backend_world
                  [convert_b64_uid_to_unified_uid example_prefix example_token]))
              (convert_b64_uid_to_unified_uid example_prefix example_token)
            = Some (BackendMapping ([] @ (lit ''a'', lit ''file-a'') # [(lit ''b'', lit ''file-b'')])) \<and>
          (\<forall>p \<in> set []. router_afile_delete first_fails (fst p) (snd p) = None) \<and>
          router_afile_delete first_fails (lit ''a'') (lit ''file-a'') = Some (lit ''down'')"
    using two_backend_specific r1 by (simp add: two_backends_def)
  have B: "fst (afile_delete example_prefix first_fails two_backend_world example_token)
             = Inl (BackendFailure (lit ''down'')) \<and>
           router_calls (snd (afile_delete example_prefix first_fails two_backend_world
                                example_token))
             = router_calls two_backend_world
               @ map delete_call ([] @ [(lit ''a'', lit ''file-a'')]) \<and>
           cache (snd (afile_delete example_prefix first_fails two_backend_world example_token))
             = cache two_backend_world"
    by (rule T [where rt = first_fails, THEN conjunct2, THEN mp, OF hB])
  from A B r1 r2 show ?thesis
    by (simp add: two_backends_def delete_call_def)
qed

text \<open>
  C2 as stated fails: with two backends of which the first one's delete raises, the
  failure leaves \<open>afile_delete\<close> and the second backend is never called.
\<close>

theorem afile_delete_failure_propagates:
  "fst (afile_delete example_prefix first_fails two_backend_world example_token)
     = Inl (BackendFailure (lit ''down'')) \<and>
   router_calls (snd (afile_delete example_prefix first_fails two_backend_world example_token))
     = [RouterFileDelete (lit ''a'') (lit ''file-a'')]"
proof -
  have s: "map_of (fst (get_model_file_id_mapping example_prefix two_backend_world
                  [convert_b64_uid_to_unified_uid example_prefix example_token]))
              (convert_b64_uid_to_unified_uid example_prefix example_token)
            = Some (BackendMapping ([] @ (lit ''a'', lit ''file-a'') # [(lit ''b'', lit ''file-b'')]))"
    using two_backend_specific by (simp add: two_backends_def)
  have p: "\<forall>p \<in> set []. router_afile_delete first_fails (fst p) (snd p) = None" by simp
  have f: "router_afile_delete first_fails (lit ''a'') (lit ''file-a'') = Some (lit ''down'')"
    by (simp add: first_fails_def)
  show ?thesis
    unfolding afile_delete_failure [OF s p f]
    by (simp add: router_calls_append get_model_file_id_mapping_world delete_call_def)
qed

lemma str_encode_ascii: "list_all (\<lambda>c. c < 128) s \<Longrightarrow> str_encode s = Inr s"
  by (induction s) simp_all

lemma example_token_lit:
  "example_token = [108,105,116,101,108,108,109,95,112,114,111,120,121,44,97,44,98]"
  by (simp add: example_token_def lit_def)

lemma example_b64_lit:
  "example_b64 = [98,71,108,48,90,87,120,115,98,86,57,119,99,109,57,52,101,83,120,104,76,71,73]"
  by (simp add: example_b64_def lit_def)

lemma example_token_encode: "str_encode example_token = Inr example_token"
  by (rule str_encode_ascii) (simp add: example_token_lit)

lemma example_b64_encoded: "rstrip_eq (urlsafe_b64encode example_token) = example_b64"
  by (simp add: example_token_lit example_b64_lit urlsafe_b64encode_def rstrip_eq_def
      table_b2a_base64_def urlsafe_encode_translation_def)

lemma example_b64_decodes:
  "is_base64_encoded_unified_file_id example_prefix example_b64 = Some example_token"
  using is_base64_encoded_token [OF example_token_encode example_token_prefixed]
  by (simp add: example_b64_encoded)

lemma example_b64_convert:
  "convert_b64_uid_to_unified_uid example_prefix example_b64 = example_token"
  by (simp add: convert_b64_uid_to_unified_uid_def example_b64_decodes example_token_lit)

lemma example_unified:
  "unified_file_id example_prefix (lit ''a'') (lit ''b'') = example_token"
  by (simp add: unified_file_id_def LITELLM_MANAGED_FILE_COMPLETE_STR_def example_prefix_def
      example_token_def lit_def)

lemma created_eq:
  "created = (Inr example_object,
              async_set_cache empty_world example_token
                (Some (BackendMapping [(lit ''gpt-a'', lit ''prov-123'')])))"
  by (simp add: created_def return_unified_file_id_def example_unified
      base64_unified_file_id_encoded [OF example_token_encode] example_b64_encoded
      provider_object_def example_object_def Let_def)

lemma ns_lit: "lit ''litellm_proxy/'' = [108,105,116,101,108,108,109,95,112,114,111,120,121,47]"
  by (simp add: lit_def)

lemma store_unified_file_id_eq:
  "store_unified_file_id w f obj =
     w\<lparr>cache := (cache w)(lit ''litellm_proxy/'' @ f := Some (FileObject obj)),
       trace := trace w @ [CacheSet (lit ''litellm_proxy/'' @ f) (Some (FileObject obj))]\<rparr>"
  by (simp add: store_unified_file_id_def async_set_cache_def Let_def)

lemma example_keys_differ:
  "example_token \<noteq> lit ''litellm_proxy/'' @ example_b64"
  "example_token \<noteq> lit ''litellm_proxy/'' @ example_token"
  "lit ''litellm_proxy/'' @ lit ''prov-123'' \<noteq> lit ''litellm_proxy/'' @ example_b64"
  "lit ''litellm_proxy/'' @ lit ''prov-123'' \<noteq> example_token"
  "lit ''litellm_proxy/'' @ lit ''prov-123'' \<noteq> lit ''litellm_proxy/'' @ example_token"
  "example_b64 \<noteq> example_token"
  by (simp_all add: lit_def example_b64_def example_token_def)

lemma created_world_cache:
  "cache created_world =
     (\<lambda>k. if k = lit ''litellm_proxy/'' @ example_b64 then Some (FileObject example_object)
          else if k = example_token then Some (BackendMapping [(lit ''gpt-a'', lit ''prov-123'')])
          else None)"
  by (rule ext)
     (simp add: created_world_def created_eq async_post_call_success_hook_def
        store_unified_file_id_eq async_set_cache_def empty_world_def example_object_def)

lemma created_world_router_calls: "router_calls created_world = []"
  by (simp add: created_world_def created_eq async_post_call_success_hook_def
      store_unified_file_id_eq async_set_cache_def empty_world_def router_calls_def)

lemma created_specific:
  "map_of (fst (get_model_file_id_mapping example_prefix created_world
                  [convert_b64_uid_to_unified_uid example_prefix example_b64]))
          (convert_b64_uid_to_unified_uid example_prefix example_b64)
     = Some (BackendMapping [(lit ''gpt-a'', lit ''prov-123'')])"
  using example_keys_differ
  by (simp add: example_b64_convert mapping_single [OF example_token_not_decodable]
      example_token_prefixed created_world_cache)

text \<open>
  C3, evaluated on the scenario of the spec: a file is created with one backend entry
  (\<open>gpt-a\<close>, \<open>prov-123\<close>) and its object is stored; the delete by the returned id calls the
  dispatcher once, then looks for the object under the backend's file id and fails, also
  when the object is stored under the unified token as well.
\<close>

theorem afile_delete_after_create:
  "fst created = Inr example_object \<and>
   obj_id example_object = example_b64 \<and>
   convert_b64_uid_to_unified_uid example_prefix example_b64 = example_token \<and>
   fst (afile_retrieve created_world example_b64) = Inr (FileObject example_object) \<and>
   fst (afile_delete example_prefix all_succeed created_world example_b64)
     = Inl (NotFound (lit ''prov-123'')) \<and>
   router_calls (snd (afile_delete example_prefix all_succeed created_world example_b64))
     = [RouterFileDelete (lit ''gpt-a'') (lit ''prov-123'')] \<and>
   cache (snd (afile_delete example_prefix all_succeed created_world example_b64))
     = cache created_world \<and>
   fst (afile_delete example_prefix all_succeed
          (store_unified_file_id created_world example_token example_object) example_b64)
     = Inl (NotFound (lit ''prov-123''))"
proof -
  have ok: "\<forall>p \<in> set [(lit ''gpt-a'', lit ''prov-123'')].
              router_afile_delete all_succeed (fst p) (snd p) = None"
    by (simp add: all_succeed_def)
  have ne: "[(lit ''gpt-a'', lit ''prov-123'')] \<noteq> []" by simp
  note miss = example_keys_differ
  have d: "afile_delete example_prefix all_succeed created_world example_b64
             = (Inl (NotFound (lit ''prov-123'')),
                created_world\<lparr>trace := trace created_world @ [CacheGet example_token]
                   @ [RouterFileDelete (lit ''gpt-a'') (lit ''prov-123'')]
                   @ [CacheGet (lit ''litellm_proxy/'' @ lit ''prov-123'')]\<rparr>)"
    unfolding afile_delete_all_ok [OF created_specific ne ok]
    using miss
    by (simp add: delete_unified_file_id_def async_get_cache_def Let_def
        get_model_file_id_mapping_world example_b64_convert
        example_token_not_decodable example_token_prefixed
        created_world_cache delete_call_def)
  let ?w = "store_unified_file_id created_world example_token example_object"
  have c2: "cache ?w =
     (\<lambda>k. if k = lit ''litellm_proxy/'' @ example_token then Some (FileObject example_object)
          else cache created_world k)"
    by (rule ext) (simp add: store_unified_file_id_eq)
  note tnk = example_keys_differ
  have s2: "map_of (fst (get_model_file_id_mapping example_prefix ?w
                  [convert_b64_uid_to_unified_uid example_prefix example_b64]))
          (convert_b64_uid_to_unified_uid example_prefix example_b64)
     = Some (BackendMapping [(lit ''gpt-a'', lit ''prov-123'')])"
    using tnk
    by (simp add: example_b64_convert mapping_single [OF example_token_not_decodable]
      example_token_prefixed c2 created_world_cache)
  have d2: "fst (afile_delete example_prefix all_succeed ?w example_b64)
             = Inl (NotFound (lit ''prov-123''))"
    unfolding afile_delete_all_ok [OF s2 ne ok]
    using miss
    by (simp add: delete_unified_file_id_def async_get_cache_def Let_def
        get_model_file_id_mapping_world c2 created_world_cache)
  have r: "fst (afile_retrieve created_world example_b64) = Inr (FileObject example_object)"
    by (simp add: afile_retrieve_def get_unified_file_id_def async_get_cache_def
        created_world_cache)
  show ?thesis
    using d d2 r
    by (simp add: created_eq example_b64_convert example_object_def
        router_calls_append created_world_router_calls)
qed

text \<open>
  C9. The store of unified file objects: a get after a store returns the stored object;
  a delete returns the object that was stored and fails with not-found when none is
  present; after a delete that succeeded, a get returns nothing and a second delete fails
  with not-found.
\<close>

theorem unified_object_store:
  "fst (get_unified_file_id (store_unified_file_id w U V) U) = Some (FileObject V) \<and>
   (cache w (lit ''litellm_proxy/'' @ U) = Some (FileObject V)
      \<longrightarrow> fst (delete_unified_file_id w U) = Inr V) \<and>
   ((\<forall>V'. cache w (lit ''litellm_proxy/'' @ U) \<noteq> Some (FileObject V'))
      \<longrightarrow> fst (delete_unified_file_id w U) = Inl (NotFound U)) \<and>
   (fst (delete_unified_file_id w U) = Inr V
      \<longrightarrow> fst (get_unified_file_id (snd (delete_unified_file_id w U)) U) = None \<and>
          fst (delete_unified_file_id (snd (delete_unified_file_id w U)) U)
            = Inl (NotFound U))"
  by (auto simp: get_unified_file_id_def store_unified_file_id_def delete_unified_file_id_def
      async_get_cache_def async_set_cache_def Let_def
      split: option.splits cache_value.splits)

theorem unified_object_store_witness:
  "cache (store_unified_file_id empty_world example_token example_object)
     (lit ''litellm_proxy/'' @ example_token) = Some (FileObject example_object) \<and>
   fst (delete_unified_file_id (store_unified_file_id empty_world example_token example_object)
          example_token) = Inr example_object \<and>
   fst (get_unified_file_id
          (snd (delete_unified_file_id
                  (store_unified_file_id empty_world example_token example_object)
                  example_token))
          example_token) = None \<and>
   fst (delete_unified_file_id
          (snd (delete_unified_file_id
                  (store_unified_file_id empty_world example_token example_object)
                  example_token))
          example_token) = Inl (NotFound example_token) \<and>
   fst (delete_unified_file_id empty_world example_token) = Inl (NotFound example_token)"
proof -
  let ?w = "store_unified_file_id empty_world example_token example_object"
  have h1: "cache ?w (lit ''litellm_proxy/'' @ example_token) = Some (FileObject example_object)"
    by (simp add: store_unified_file_id_eq)
  note T = unified_object_store [of ?w example_token example_object]
  from T h1 have a: "fst (delete_unified_file_id ?w example_token) = Inr example_object"
    by blast
  from T a have b: "fst (get_unified_file_id (snd (delete_unified_file_id ?w example_token))
                           example_token) = None \<and>
                    fst (delete_unified_file_id (snd (delete_unified_file_id ?w example_token))
                           example_token) = Inl (NotFound example_token)"
    by blast
  have h3: "\<forall>V'. cache empty_world (lit ''litellm_proxy/'' @ example_token)
                    \<noteq> Some (FileObject V')"
    by (simp add: empty_world_def)
  from unified_object_store [of empty_world example_token example_object] h3
  have c: "fst (delete_unified_file_id empty_world example_token) = Inl (NotFound example_token)"
    by blast
  from h1 a b c show ?thesis by blast
qed

section \<open>Normalisation in the file operations and the request rewriter\<close>
















lemma try_decode_empty: "try_decode (repad []) = Inr []"
  by (simp add: try_decode_def repad_def urlsafe_b64decode_def bytes_from_decode_data_def
      a2b_base64_def)

lemma convert_empty [simp]: "convert_b64_uid_to_unified_uid pfx [] = []"
  by (auto simp: convert_b64_uid_to_unified_uid_def is_base64_Some_iff try_decode_empty
      split: option.splits)













lemma resolve_ids_cache: "cache (snd (resolve_ids w ks acc)) = cache w"
  by (simp add: resolve_ids_world)







end
